theory Spec2Isabelle
  imports Complex_Main
begin

section \<open>JavaScript strings and the regular expressions of the analyzer\<close>

text \<open>
  A JavaScript string is a sequence of UTF-16 code units. The model keeps a code unit as
  a natural number, so that the white space class of \<^verbatim>\<open>trim()\<close> and \<^verbatim>\<open>\s\<close>
  (which has members beyond Latin-1) is the one of the language. Literals of the source
  are written as Isabelle strings and converted with \<open>js\<close>.
\<close>

type_synonym jsstring = "nat list"

definition js :: "string \<Rightarrow> jsstring" where
  "js s = map of_char s"

text \<open>White space of ECMAScript: WhiteSpace and LineTerminator code points.\<close>

definition is_space :: "nat \<Rightarrow> bool" where
  "is_space c = (c = 9 \<or> c = 10 \<or> c = 11 \<or> c = 12 \<or> c = 13 \<or> c = 32 \<or> c = 160
     \<or> c = 5760 \<or> (8192 \<le> c \<and> c \<le> 8202) \<or> c = 8232 \<or> c = 8233 \<or> c = 8239
     \<or> c = 8287 \<or> c = 12288 \<or> c = 65279)"

text \<open>\<^verbatim>\<open>\w\<close> without the unicode or ignore-case flag: \<^verbatim>\<open>[A-Za-z0-9_]\<close>.\<close>

definition is_word :: "nat \<Rightarrow> bool" where
  "is_word c = ((48 \<le> c \<and> c \<le> 57) \<or> (65 \<le> c \<and> c \<le> 90) \<or> c = 95 \<or> (97 \<le> c \<and> c \<le> 122))"

text \<open>\<^verbatim>\<open>String.prototype.trim\<close>: white space is removed at both ends.\<close>

definition trim :: "jsstring \<Rightarrow> jsstring" where
  "trim s = rev (dropWhile is_space (rev (dropWhile is_space s)))"

text \<open>\<^verbatim>\<open>s.startsWith(p)\<close>.\<close>

fun startsWith :: "jsstring \<Rightarrow> jsstring \<Rightarrow> bool" where
  "startsWith s [] = True"
| "startsWith [] (p # ps) = False"
| "startsWith (c # cs) (p # ps) = (c = p \<and> startsWith cs ps)"

text \<open>\<^verbatim>\<open>s.includes(p)\<close>: \<open>p\<close> occurs in \<open>s\<close> as a contiguous substring.\<close>

fun includes_str :: "jsstring \<Rightarrow> jsstring \<Rightarrow> bool" where
  "includes_str [] p = (p = [])"
| "includes_str (c # cs) p = (startsWith (c # cs) p \<or> includes_str cs p)"

text \<open>
  \<^verbatim>\<open>code.split('\n')\<close>: the pieces between line feeds (code unit 10); the empty string
  gives one empty piece.
\<close>

fun split_lines :: "jsstring \<Rightarrow> jsstring list" where
  "split_lines [] = [[]]"
| "split_lines (c # cs) =
     (if c = 10 then [] # split_lines cs
      else (case split_lines cs of [] \<Rightarrow> [[c]] | l # ls \<Rightarrow> (c # l) # ls))"

text \<open>
  The regular expressions of the analyzer use literal characters, the classes
  \<^verbatim>\<open>\s\<close> and \<^verbatim>\<open>\w\<close>, the greedy quantifiers \<^verbatim>\<open>*\<close> and \<^verbatim>\<open>+\<close> on a
  single class, concatenation, and alternation at top level. \<open>match_seq\<close> is the
  backtracking matcher for one alternative, anchored at the start of its input: it
  returns the rest of the input after the match. A quantifier first takes one more
  character and gives it back when the rest of the pattern fails.
\<close>

datatype cls = Ch nat | Space | Word

datatype item = One cls | Star cls | Plus cls

type_synonym regex = "item list list"

fun cls_ok :: "cls \<Rightarrow> nat \<Rightarrow> bool" where
  "cls_ok (Ch k) c = (c = k)"
| "cls_ok Space c = is_space c"
| "cls_ok Word c = is_word c"

fun match_seq :: "item list \<Rightarrow> jsstring \<Rightarrow> jsstring option" where
  "match_seq [] s = Some s"
| "match_seq (One a # r) [] = None"
| "match_seq (One a # r) (c # cs) = (if cls_ok a c then match_seq r cs else None)"
| "match_seq (Star a # r) [] = match_seq r []"
| "match_seq (Star a # r) (c # cs) =
     (if cls_ok a c
      then (case match_seq (Star a # r) cs of Some t \<Rightarrow> Some t | None \<Rightarrow> match_seq r (c # cs))
      else match_seq r (c # cs))"
| "match_seq (Plus a # r) [] = None"
| "match_seq (Plus a # r) (c # cs) = (if cls_ok a c then match_seq (Star a # r) cs else None)"

text \<open>Alternatives are tried in the order in which they are written.\<close>

fun match_here :: "regex \<Rightarrow> jsstring \<Rightarrow> jsstring option" where
  "match_here [] s = None"
| "match_here (p # ps) s = (case match_seq p s of Some t \<Rightarrow> Some t | None \<Rightarrow> match_here ps s)"

text \<open>
  \<^verbatim>\<open>(code.match(/re/g) || []).length\<close>: the number of matches found by scanning from
  left to right, each search starting where the previous match ended (one position
  further after an empty match).
\<close>

function count_matches :: "regex \<Rightarrow> jsstring \<Rightarrow> nat" where
  "count_matches re s =
     (case match_here re s of
        None \<Rightarrow> (case s of [] \<Rightarrow> 0 | c # cs \<Rightarrow> count_matches re cs)
      | Some t \<Rightarrow>
          Suc (if length t < length s then count_matches re t
               else (case s of [] \<Rightarrow> 0 | c # cs \<Rightarrow> count_matches re cs)))"
  by pat_completeness auto
termination
  by (relation "measure (\<lambda>(re, s). length s)") auto

declare count_matches.simps [simp del]

definition lit :: "string \<Rightarrow> item list" where
  "lit s = map (\<lambda>c. One (Ch (of_char c))) s"

text \<open>\<^verbatim>\<open>/function\s+\w+|const\s+\w+\s*=\s*\(|=>\s*{|class\s+\w+/g\<close>\<close>

definition re_function :: regex where
  "re_function =
     [lit ''function'' @ [Plus Space, Plus Word],
      lit ''const'' @ [Plus Space, Plus Word, Star Space] @ lit ''='' @ [Star Space] @ lit ''('',
      lit ''=>'' @ [Star Space] @ lit ''{'',
      lit ''class'' @ [Plus Space, Plus Word]]"

text \<open>\<^verbatim>\<open>/if\s*\(/g\<close>, \<^verbatim>\<open>/for\s*\(/g\<close>, \<^verbatim>\<open>/while\s*\(/g\<close>, \<^verbatim>\<open>/switch\s*\(/g\<close>\<close>

definition re_if :: regex where
  "re_if = [lit ''if'' @ [Star Space] @ lit ''('']"

definition re_for :: regex where
  "re_for = [lit ''for'' @ [Star Space] @ lit ''('']"

definition re_while :: regex where
  "re_while = [lit ''while'' @ [Star Space] @ lit ''('']"

definition re_switch :: regex where
  "re_switch = [lit ''switch'' @ [Star Space] @ lit ''('']"

text \<open>\<^verbatim>\<open>/try\s*{|catch\s*\(/g\<close>\<close>

definition re_trycatch :: regex where
  "re_trycatch = [lit ''try'' @ [Star Space] @ lit ''{'', lit ''catch'' @ [Star Space] @ lit ''('']"

section \<open>The metrics analyzer\<close>

text \<open>
  The result of \<^verbatim>\<open>analyzeCodeComplexity\<close>. Counts are natural numbers. A JavaScript
  number that is not a count is kept as an exact rational (the products with 1.5 and 0.1
  are taken exactly), and \<^verbatim>\<open>Math.round\<close>, which rounds to the nearest integer with
  halves going up, returns an integer.

  For the maintainability index and the performance score the exact value and the value
  in double arithmetic round alike: the terms other than \<open>totalLines * 0.1\<close> are
  multiples of one half and exact, the product \<open>totalLines * 0.1\<close> is exact in doubles
  whenever \<open>totalLines\<close> is a multiple of 5, and otherwise the exact value is at least one
  tenth away from the next half. The comment ratio is a quotient, where a double can fall
  just below a half that the exact value reaches (23 comment lines of 40 give 57, not
  58); there the model rounds the quotient and the product to doubles as the source does.
\<close>

record MetricsRecord =
  totalLines :: nat
  nonEmptyLines :: nat
  commentLines :: nat
  functionCount :: nat
  complexityScore :: nat
  maintainabilityIndex :: int
  performanceScore :: int
  codeToCommentRatio :: int

record ComplexityBreakdown =
  ifStatements :: nat
  forLoops :: nat
  whileLoops :: nat
  switchStatements :: nat
  tryCatchBlocks :: nat

record SecurityProfile =
  issues :: "jsstring list"
  score :: int

record AnalysisResult =
  metrics :: MetricsRecord
  complexity :: ComplexityBreakdown
  security :: SecurityProfile
  recommendations :: "jsstring list"

definition Math_round :: "rat \<Rightarrow> int" where
  "Math_round x = \<lfloor>x + 1 / 2\<rfloor>"

text \<open>
  The result of an arithmetic operation on doubles is the exact result rounded to 53
  significant binary digits, ties going to the even neighbour. \<open>to_double\<close> is that
  rounding for numbers in the normal range, which the quotient of two counts and its
  hundredfold never leave. \<open>bit_length\<close> is the number of binary digits of a positive
  integer, from which the binary exponent of a fraction is found.
\<close>

function bit_length :: "int \<Rightarrow> int" where
  "bit_length n = (if n \<le> 0 then 0 else 1 + bit_length (n div 2))"
  by pat_completeness auto
termination
  by (relation "measure nat") auto

declare bit_length.simps [simp del]

definition pow2 :: "int \<Rightarrow> rat" where
  "pow2 k = (if 0 \<le> k then 2 ^ nat k else 1 / 2 ^ nat (- k))"

definition round_ties_even :: "rat \<Rightarrow> int" where
  "round_ties_even x =
     (let f = \<lfloor>x\<rfloor>; d = x - of_int f
      in if d < 1 / 2 then f else if 1 / 2 < d then f + 1 else if even f then f else f + 1)"

definition to_double :: "rat \<Rightarrow> rat" where
  "to_double x =
     (if x = 0 then 0
      else (let a = \<bar>x\<bar>;
                e0 = bit_length (fst (quotient_of a)) - bit_length (snd (quotient_of a));
                e = (if pow2 e0 \<le> a then e0 else e0 - 1);
                ulp = pow2 (e - 52)
            in sgn x * of_int (round_ties_even (a / ulp)) * ulp))"

text \<open>\<^verbatim>\<open>generateRecommendations\<close>: every rule that fires adds its message.\<close>

definition generateRecommendations :: "nat \<Rightarrow> rat \<Rightarrow> rat \<Rightarrow> jsstring list \<Rightarrow> jsstring list" where
  "generateRecommendations cs mi ps secIssues =
     (let recs =
        (if 20 < cs
         then [js ''Consider breaking down complex functions into smaller, more manageable pieces'']
         else [])
        @ (if mi < 50
           then [js ''Code maintainability is low. Consider refactoring and adding more comments'']
           else [])
        @ (if ps < 70
           then [js ''Performance could be improved. Consider optimizing loops and reducing nested conditions'']
           else [])
        @ (if 0 < length secIssues
           then [js ''Security issues detected. Review and fix security vulnerabilities'']
           else [])
      in if length recs = 0
         then [js ''Code quality looks good! Keep up the good practices'']
         else recs)"

text \<open>
  The security scan of \<^verbatim>\<open>analyzeCodeComplexity\<close>: three literal substring tests, each
  pushing one message.
\<close>

definition securityIssues :: "jsstring \<Rightarrow> jsstring list" where
  "securityIssues code =
     (if includes_str code (js ''eval('') then [js ''eval() usage detected''] else [])
     @ (if includes_str code (js ''innerHTML'') then [js ''innerHTML usage detected''] else [])
     @ (if includes_str code (js ''document.write'') then [js ''document.write usage detected''] else [])"

text \<open>
  \<^verbatim>\<open>analyzeCodeComplexity\<close>. \<open>analysis_of\<close> is the body of the function from the
  six numbers of matches onwards; the function takes these numbers with
  \<^verbatim>\<open>(code.match(/re/g) || []).length\<close>.
\<close>

definition analysis_of ::
  "jsstring \<Rightarrow> nat \<Rightarrow> nat \<Rightarrow> nat \<Rightarrow> nat \<Rightarrow> nat \<Rightarrow> nat \<Rightarrow> AnalysisResult" where
  "analysis_of code =
     (\<lambda>functionCount ifStatements forLoops whileLoops switchStatements tryCatchBlocks.
      let lines = split_lines code;
          totalLines = length lines;
          nonEmptyLines = length (filter (\<lambda>line. 0 < length (trim line)) lines);
          commentLines = length (filter (\<lambda>line. startsWith (trim line) (js ''//'')
                             \<or> startsWith (trim line) (js ''/*'')
                             \<or> startsWith (trim line) (js ''*'')) lines);
          complexityScore = ifStatements + forLoops * 2 + whileLoops * 2
                              + switchStatements * 3 + tryCatchBlocks * 2;
          maintainabilityIndex = max 0 (100 - (of_nat complexityScore * 2)
                              - (of_nat functionCount * (3 / 2)) - (of_nat totalLines * (1 / 10)));
          performanceScore = max 0 (100 - (of_nat forLoops * 5) - (of_nat whileLoops * 5)
                              - (of_nat ifStatements * 2));
          secIssues = securityIssues code
      in \<lparr> metrics = \<lparr> totalLines = totalLines,
                       nonEmptyLines = nonEmptyLines,
                       commentLines = commentLines,
                       functionCount = functionCount,
                       complexityScore = complexityScore,
                       maintainabilityIndex = Math_round maintainabilityIndex,
                       performanceScore = Math_round performanceScore,
                       codeToCommentRatio =
                         (if 0 < nonEmptyLines
                          then Math_round (to_double
                                 (to_double (of_nat commentLines / of_nat nonEmptyLines) * 100))
                          else 0) \<rparr>,
           complexity = \<lparr> ifStatements = ifStatements,
                          forLoops = forLoops,
                          whileLoops = whileLoops,
                          switchStatements = switchStatements,
                          tryCatchBlocks = tryCatchBlocks \<rparr>,
           security = \<lparr> issues = secIssues,
                        score = max 0 (100 - (int (length secIssues) * 20)) \<rparr>,
           recommendations =
             generateRecommendations complexityScore maintainabilityIndex performanceScore secIssues \<rparr>)"

definition analyzeCodeComplexity :: "jsstring \<Rightarrow> AnalysisResult" where
  "analyzeCodeComplexity code =
     analysis_of code (count_matches re_function code) (count_matches re_if code)
       (count_matches re_for code) (count_matches re_while code)
       (count_matches re_switch code) (count_matches re_trycatch code)"

text \<open>
  The same function as a computation that may fail to return. The scan for all matches
  is the one loop of the analyzer whose end is not given by the structure of its data: it
  goes on from where the last match ended. \<open>match_loop\<close> is that loop as a partial
  function, with \<open>None\<close> for a run that does not return, and \<open>analyze_run\<close> is the
  analyzer on top of it.
\<close>

partial_function (option) match_loop :: "regex \<Rightarrow> jsstring \<Rightarrow> nat option" where
  "match_loop re s =
     (case match_here re s of
        None \<Rightarrow> (case s of [] \<Rightarrow> Some 0 | c # cs \<Rightarrow> match_loop re cs)
      | Some t \<Rightarrow>
          (if length t < length s
           then Option.bind (match_loop re t) (\<lambda>n. Some (Suc n))
           else (case s of [] \<Rightarrow> Some (Suc 0)
                 | c # cs \<Rightarrow> Option.bind (match_loop re cs) (\<lambda>n. Some (Suc n)))))"

definition analyze_run :: "jsstring \<Rightarrow> AnalysisResult option" where
  "analyze_run code =
     Option.bind (match_loop re_function code) (\<lambda>functionCount.
     Option.bind (match_loop re_if code) (\<lambda>ifStatements.
     Option.bind (match_loop re_for code) (\<lambda>forLoops.
     Option.bind (match_loop re_while code) (\<lambda>whileLoops.
     Option.bind (match_loop re_switch code) (\<lambda>switchStatements.
     Option.bind (match_loop re_trycatch code) (\<lambda>tryCatchBlocks.
       Some (analysis_of code functionCount ifStatements forLoops whileLoops
               switchStatements tryCatchBlocks)))))))"

text \<open>
  The formula of the specification for the maintainability index, written from its
  words: \<open>clamp(0, 100, round(100 - 2*complexityScore - 1.5*functionCount - 0.1*totalLines))\<close>.
\<close>

definition clamp :: "int \<Rightarrow> int \<Rightarrow> int \<Rightarrow> int" where
  "clamp lo hi x = max lo (min hi x)"

definition spec_maintainabilityIndex :: "nat \<Rightarrow> nat \<Rightarrow> nat \<Rightarrow> int" where
  "spec_maintainabilityIndex cs fc n =
     clamp 0 100 (round (100 - 2 * (of_nat cs :: rat) - (3 / 2) * of_nat fc - (1 / 10) * of_nat n))"

text \<open>
  The catalog of unsafe sinks that the specification speaks of: the substring searched
  for and the message it adds, in the order of the three tests of the source.
\<close>

definition sink_catalog :: "(jsstring \<times> jsstring) list" where
  "sink_catalog =
     [(js ''eval('', js ''eval() usage detected''),
      (js ''innerHTML'', js ''innerHTML usage detected''),
      (js ''document.write'', js ''document.write usage detected'')]"

section \<open>The evolution store\<close>

text \<open>
  A stored snapshot, as the handler of \<^verbatim>\<open>POST /evolution/record\<close> builds it. The metrics
  of a snapshot are supplied by the caller; the handlers read the three properties below.
  An optional property is an \<open>option\<close>: \<open>None\<close> stands for \<^verbatim>\<open>undefined\<close>.
\<close>

record SnapshotMetrics =
  maintainabilityIndex :: int
  complexityScore :: int
  securityScore :: "int option"

record EvolutionSnapshot =
  repo :: jsstring
  commit :: "jsstring option"
  timestamp :: int
  metrics :: SnapshotMetrics
  "file" :: "jsstring option"

datatype error = ValidationError | SyntaxError | TypeError

text \<open>
  The backing file. Its text is \<^verbatim>\<open>JSON.stringify(data, null, 2)\<close> for a list of
  snapshots \<open>data\<close>; the model writes \<open>Complete data\<close> for that text and \<open>Partial data\<close>
  for a proper prefix of it, which is what the file holds while \<^verbatim>\<open>fs.writeFileSync\<close>
  (open with truncation, write, close) is under way. A proper prefix of the text of a JSON
  array is not JSON, so \<^verbatim>\<open>JSON.parse\<close> throws on it.
\<close>

datatype file_content = Complete "EvolutionSnapshot list" | Partial "EvolutionSnapshot list"

type_synonym filesystem = "jsstring \<rightharpoonup> file_content"

datatype fs_call = WriteFileSync jsstring "EvolutionSnapshot list" | RenameSync jsstring jsstring

text \<open>
  The states the file system passes through while one call runs; the last one is the
  state after the call has returned. A rename of an existing file replaces its target in
  one step. The source only ever writes; the rename is there to express the discipline
  that the specification describes.
\<close>

fun fs_states :: "fs_call \<Rightarrow> filesystem \<Rightarrow> filesystem list" where
  "fs_states (WriteFileSync p d) fs = [fs(p \<mapsto> Partial d), fs(p \<mapsto> Complete d)]"
| "fs_states (RenameSync a b) fs = [(fs(b := fs a))(a := None)]"

fun fs_trace :: "fs_call list \<Rightarrow> filesystem \<Rightarrow> filesystem list" where
  "fs_trace [] fs = []"
| "fs_trace (c # cs) fs = fs_states c fs @ fs_trace cs (last (fs_states c fs))"

fun fs_run :: "fs_call list \<Rightarrow> filesystem \<Rightarrow> filesystem" where
  "fs_run [] fs = fs"
| "fs_run (c # cs) fs = fs_run cs (last (fs_states c fs))"

text \<open>
  \<^verbatim>\<open>path.join(__dirname, 'evolutionData.json')\<close>, as a path relative to the directory
  of the program.
\<close>

definition EVOLUTION_DB_PATH :: jsstring where
  "EVOLUTION_DB_PATH = js ''evolutionData.json''"

definition loadEvolutionData :: "filesystem \<Rightarrow> error + EvolutionSnapshot list" where
  "loadEvolutionData fs =
     (case fs EVOLUTION_DB_PATH of
        None \<Rightarrow> Inr []
      | Some (Complete d) \<Rightarrow> Inr d
      | Some (Partial d) \<Rightarrow> Inl SyntaxError)"

text \<open>\<^verbatim>\<open>saveEvolutionData\<close>: the file system calls it makes, in order.\<close>

definition saveEvolutionData :: "EvolutionSnapshot list \<Rightarrow> fs_call list" where
  "saveEvolutionData d = [WriteFileSync EVOLUTION_DB_PATH d]"

text \<open>JavaScript truthiness of an optional string and of an optional number.\<close>

fun truthy_str :: "jsstring option \<Rightarrow> bool" where
  "truthy_str None = False"
| "truthy_str (Some s) = (s \<noteq> [])"

fun truthy_num :: "int option \<Rightarrow> bool" where
  "truthy_num None = False"
| "truthy_num (Some n) = (n \<noteq> 0)"

text \<open>
  \<^verbatim>\<open>POST /evolution/record\<close>. The first argument is the value of
  \<^verbatim>\<open>Date.now()\<close>, the next five are the properties taken from the request body.
  \<open>new_snapshot\<close> is the object that the handler pushes; the handler builds it only
  after the check of \<open>repo\<close> and \<open>metrics\<close>. The result is the response (an error
  for status 400 or for an exception) and the file system afterwards.
\<close>

definition new_snapshot ::
  "int \<Rightarrow> jsstring option \<Rightarrow> jsstring option \<Rightarrow> int option \<Rightarrow> SnapshotMetrics option
     \<Rightarrow> jsstring option \<Rightarrow> EvolutionSnapshot" where
  "new_snapshot now repo' commit' timestamp' metrics' file' =
     \<lparr> repo = the repo', commit = commit',
       timestamp = (if truthy_num timestamp' then the timestamp' else now),
       metrics = the metrics', file = file' \<rparr>"

definition evolution_record ::
  "int \<Rightarrow> jsstring option \<Rightarrow> jsstring option \<Rightarrow> int option \<Rightarrow> SnapshotMetrics option
     \<Rightarrow> jsstring option \<Rightarrow> filesystem \<Rightarrow> (error + unit) \<times> filesystem" where
  "evolution_record now repo' commit' timestamp' metrics' file' fs =
     (if \<not> truthy_str repo' \<or> metrics' = None then (Inl ValidationError, fs)
      else (case loadEvolutionData fs of
              Inl e \<Rightarrow> (Inl e, fs)
            | Inr d \<Rightarrow>
                (Inr (),
                 fs_run (saveEvolutionData
                   (d @ [new_snapshot now repo' commit' timestamp' metrics' file'])) fs)))"

text \<open>\<^verbatim>\<open>GET /evolution/timeline\<close>, with the query parameters \<open>repo\<close> and \<open>file\<close>.\<close>

definition evolution_timeline ::
  "jsstring option \<Rightarrow> jsstring option \<Rightarrow> filesystem \<Rightarrow> error + EvolutionSnapshot list" where
  "evolution_timeline repo' file' fs =
     (if \<not> truthy_str repo' then Inl ValidationError
      else (case loadEvolutionData fs of
              Inl e \<Rightarrow> Inl e
            | Inr d \<Rightarrow>
                Inr (filter (\<lambda>snap. repo snap = the repo'
                               \<and> (\<not> truthy_str file' \<or> file snap = file')) d)))"

text \<open>
  The write discipline that the specification asks for: the collection is written to a
  temporary path, which is then renamed to the path of the backing file.
\<close>

definition atomic_replace_on_write :: "fs_call list \<Rightarrow> bool" where
  "atomic_replace_on_write calls =
     (case calls of
        [WriteFileSync tmp d, RenameSync a b] \<Rightarrow>
          tmp \<noteq> EVOLUTION_DB_PATH \<and> a = tmp \<and> b = EVOLUTION_DB_PATH
      | _ \<Rightarrow> False)"

section \<open>The hotspot trend engine\<close>

record HotspotEntry =
  "file" :: jsstring
  maintainabilityTrend :: int
  complexityTrend :: int
  securityTrend :: int
  latest :: SnapshotMetrics

text \<open>
  The grouping object \<^verbatim>\<open>byFile\<close> is created as \<^verbatim>\<open>{}\<close>. Its own properties are
  an association list in the order in which the keys were created. Behind them stand the
  properties that every plain object inherits from \<^verbatim>\<open>Object.prototype\<close>: reading
  one of these keys gives a function (or, for \<^verbatim>\<open>__proto__\<close>, the prototype object),
  which is truthy and has no \<^verbatim>\<open>push\<close>.
\<close>

type_synonym byFile = "(jsstring \<times> EvolutionSnapshot list) list"

definition Object_prototype_keys :: "jsstring list" where
  "Object_prototype_keys =
     map js [''constructor'', ''__defineGetter__'', ''__defineSetter__'', ''hasOwnProperty'',
       ''__lookupGetter__'', ''__lookupSetter__'', ''isPrototypeOf'', ''propertyIsEnumerable'',
       ''toString'', ''valueOf'', ''__proto__'', ''toLocaleString'']"

text \<open>
  The callback of \<^verbatim>\<open>data.forEach\<close>. A snapshot without a file (or with the empty
  string) is skipped. Otherwise \<^verbatim>\<open>byFile[snap.file]\<close> is read: an own property is
  the group of the file, and the snapshot is pushed to its end; an inherited property is
  truthy, so no group is created, and calling its \<^verbatim>\<open>push\<close> throws a TypeError;
  for any other key the group is created with the snapshot in it. \<open>group_all\<close> is the
  \<^verbatim>\<open>forEach\<close>, which the exception leaves.
\<close>

definition group_push :: "byFile \<Rightarrow> EvolutionSnapshot \<Rightarrow> error + byFile" where
  "group_push byFile snap =
     (if \<not> truthy_str (EvolutionSnapshot.file snap) then Inr byFile
      else (let f = the (EvolutionSnapshot.file snap)
            in (case map_of byFile f of
                  Some g \<Rightarrow> Inr (map (\<lambda>(k, v). if k = f then (k, v @ [snap]) else (k, v)) byFile)
                | None \<Rightarrow>
                    if f \<in> set Object_prototype_keys then Inl TypeError
                    else Inr (byFile @ [(f, [snap])]))))"

fun group_all :: "byFile \<Rightarrow> EvolutionSnapshot list \<Rightarrow> error + byFile" where
  "group_all byFile [] = Inr byFile"
| "group_all byFile (snap # snaps) =
     (case group_push byFile snap of
        Inl e \<Rightarrow> Inl e
      | Inr byFile' \<Rightarrow> group_all byFile' snaps)"

text \<open>
  \<^verbatim>\<open>Object.entries\<close> lists the keys that are array indices (canonical decimal
  numerals below \<open>2^32 - 1\<close>) first, in ascending numeric order, and then the other keys
  in the order of their creation.
\<close>

definition is_digit :: "nat \<Rightarrow> bool" where
  "is_digit c = (48 \<le> c \<and> c \<le> 57)"

definition digits_val :: "jsstring \<Rightarrow> nat" where
  "digits_val k = foldl (\<lambda>a c. 10 * a + (c - 48)) 0 k"

definition is_array_index :: "jsstring \<Rightarrow> bool" where
  "is_array_index k =
     (k \<noteq> [] \<and> list_all is_digit k \<and> (length k = 1 \<or> hd k \<noteq> 48) \<and> digits_val k < 4294967295)"

definition object_entries :: "byFile \<Rightarrow> byFile" where
  "object_entries byFile =
     sort_key (\<lambda>(k, v). digits_val k) (filter (\<lambda>(k, v). is_array_index k) byFile)
     @ filter (\<lambda>(k, v). \<not> is_array_index k) byFile"

text \<open>\<^verbatim>\<open>parseInt(window as string) || 5\<close>, on the result of \<^verbatim>\<open>parseInt\<close> (\<open>None\<close> is NaN).\<close>

definition window_size :: "int option \<Rightarrow> int" where
  "window_size w = (if truthy_num w then the w else 5)"

text \<open>
  The callback of \<^verbatim>\<open>map\<close>: the group is sorted by timestamp (the sort of an array is
  stable), a group shorter than the window gives \<^verbatim>\<open>null\<close>, and reading
  \<^verbatim>\<open>.metrics\<close> of an element that does not exist (an index outside the array)
  throws a TypeError. \<open>hotspot_entry\<close> is the object that the callback returns, read
  from the sorted group at the indices \<open>length - N\<close> and \<open>length - 1\<close>.
\<close>

definition or_zero :: "int option \<Rightarrow> int" where
  "or_zero v = (if truthy_num v then the v else 0)"

definition hotspot_entry :: "int \<Rightarrow> jsstring \<Rightarrow> EvolutionSnapshot list \<Rightarrow> HotspotEntry" where
  "hotspot_entry N f sorted' =
     (let len = int (length sorted');
          start = metrics (sorted' ! nat (len - N));
          end' = metrics (sorted' ! nat (len - 1))
      in \<lparr> file = f,
           maintainabilityTrend = maintainabilityIndex end' - maintainabilityIndex start,
           complexityTrend = complexityScore end' - complexityScore start,
           securityTrend = or_zero (securityScore end') - or_zero (securityScore start),
           latest = end' \<rparr>)"

definition hotspot_of :: "int \<Rightarrow> jsstring \<times> EvolutionSnapshot list \<Rightarrow> error + HotspotEntry option" where
  "hotspot_of N entry =
     (let f = fst entry;
          sorted = sort_key timestamp (snd entry);
          len = int (length sorted)
      in if len < N then Inr None
         else if len - N < 0 \<or> len \<le> len - N then Inl TypeError
         else if len - 1 < 0 \<or> len \<le> len - 1 then Inl TypeError
         else Inr (Some (hotspot_entry N f sorted)))"

fun hotspot_map :: "int \<Rightarrow> byFile \<Rightarrow> error + HotspotEntry option list" where
  "hotspot_map N [] = Inr []"
| "hotspot_map N (e # es) =
     (case hotspot_of N e of
        Inl err \<Rightarrow> Inl err
      | Inr h \<Rightarrow> (case hotspot_map N es of Inl err \<Rightarrow> Inl err | Inr hs \<Rightarrow> Inr (h # hs)))"

text \<open>\<^verbatim>\<open>.filter(Boolean)\<close> on the mapped array.\<close>

fun filter_Boolean :: "'a option list \<Rightarrow> 'a list" where
  "filter_Boolean [] = []"
| "filter_Boolean (None # xs) = filter_Boolean xs"
| "filter_Boolean (Some x # xs) = x # filter_Boolean xs"

text \<open>
  \<^verbatim>\<open>GET /evolution/hotspots\<close>, with the query parameter \<open>repo\<close> and the result of
  \<^verbatim>\<open>parseInt\<close> on the query parameter \<open>window\<close>. The final sort is by descending
  \<open>complexityTrend\<close> and stable.
\<close>

definition evolution_hotspots ::
  "jsstring option \<Rightarrow> int option \<Rightarrow> filesystem \<Rightarrow> error + HotspotEntry list" where
  "evolution_hotspots repo' window fs =
     (if \<not> truthy_str repo' then Inl ValidationError
      else (case loadEvolutionData fs of
              Inl e \<Rightarrow> Inl e
            | Inr d \<Rightarrow>
                (let data = filter (\<lambda>snap. repo snap = the repo') d
                 in (case group_all [] data of
                       Inl e \<Rightarrow> Inl e
                     | Inr byFile \<Rightarrow>
                         (let N = window_size window
                          in (case hotspot_map N (object_entries byFile) of
                                Inl e \<Rightarrow> Inl e
                              | Inr hs \<Rightarrow>
                                  Inr (sort_key (\<lambda>h. - complexityTrend h)
                                         (filter_Boolean hs))))))))"

text \<open>
  Notions used to state what the grouping computes: the group stored under a key (empty
  when the key is absent), the snapshots that are pushed to the group of a file, and the
  snapshots whose file is an inherited key.
\<close>

definition grp :: "byFile \<Rightarrow> jsstring \<Rightarrow> EvolutionSnapshot list" where
  "grp bf k = (case map_of bf k of None \<Rightarrow> [] | Some g \<Rightarrow> g)"

definition in_file :: "jsstring \<Rightarrow> EvolutionSnapshot \<Rightarrow> bool" where
  "in_file k s = (k \<noteq> [] \<and> EvolutionSnapshot.file s = Some k)"

definition inherited_file :: "EvolutionSnapshot \<Rightarrow> bool" where
  "inherited_file s =
     (case EvolutionSnapshot.file s of None \<Rightarrow> False | Some f \<Rightarrow> f \<in> set Object_prototype_keys)"

section \<open>Example data\<close>

text \<open>
  Concrete values for the examples below: metrics with a given complexity score, a
  snapshot of the file \<^verbatim>\<open>src/a.ts\<close> of the repository \<^verbatim>\<open>acme/app\<close> with a given
  timestamp and complexity score, the same for any file, and a file system whose backing
  file holds a given list of snapshots.
\<close>

definition example_metrics :: "int \<Rightarrow> SnapshotMetrics" where
  "example_metrics c = \<lparr> maintainabilityIndex = 70, complexityScore = c, securityScore = None \<rparr>"

definition example_snapshot_of :: "string \<Rightarrow> int \<Rightarrow> int \<Rightarrow> EvolutionSnapshot" where
  "example_snapshot_of f t c =
     \<lparr> repo = js ''acme/app'', commit = None, timestamp = t, metrics = example_metrics c,
       file = Some (js f) \<rparr>"

definition example_snapshot :: "int \<Rightarrow> int \<Rightarrow> EvolutionSnapshot" where
  "example_snapshot t c = example_snapshot_of ''src/a.ts'' t c"

definition example_store :: "EvolutionSnapshot list \<Rightarrow> filesystem" where
  "example_store d = [EVOLUTION_DB_PATH \<mapsto> Complete d]"

section \<open>Properties of the metrics analyzer\<close>

lemma Math_round_range: "0 \<le> x \<Longrightarrow> x \<le> 100 \<Longrightarrow> 0 \<le> Math_round x \<and> Math_round x \<le> 100"
  unfolding Math_round_def by (simp add: floor_le_iff)

lemma Math_round_max0: "x \<le> 100 \<Longrightarrow> Math_round (max 0 x) = clamp 0 100 (round x)"
proof (cases "0 \<le> x")
  case True
  assume "x \<le> 100"
  then have "round x \<le> 100" unfolding round_def by (simp add: floor_le_iff)
  moreover from True have "0 \<le> round x" unfolding round_def by simp
  ultimately show ?thesis using True by (simp add: Math_round_def clamp_def round_def max_def)
next
  case False
  then have "round x \<le> 0" unfolding round_def by (simp add: floor_le_iff)
  with False show ?thesis by (simp add: Math_round_def clamp_def max_def floor_eq_iff)
qed

lemma securityIssues_catalog:
  "securityIssues s = map snd (filter (\<lambda>(pat, msg). includes_str s pat) sink_catalog)"
  by (simp add: securityIssues_def sink_catalog_def)

lemma securityIssues_length: "length (securityIssues s) \<le> 3"
  by (simp add: securityIssues_def)

lemma securityIssues_distinct: "distinct (securityIssues s)"
  by (simp add: securityIssues_def js_def)

lemma count_matches_Nil:
  "count_matches re_function [] = 0" "count_matches re_if [] = 0" "count_matches re_for [] = 0"
  "count_matches re_while [] = 0" "count_matches re_switch [] = 0" "count_matches re_trycatch [] = 0"
  by (simp_all add: count_matches.simps re_function_def re_if_def re_for_def re_while_def
      re_switch_def re_trycatch_def lit_def)

lemma analyze_Nil:
  "analyzeCodeComplexity [] =
     \<lparr> AnalysisResult.metrics = \<lparr> totalLines = 1, nonEmptyLines = 0, commentLines = 0,
         functionCount = 0, complexityScore = 0, maintainabilityIndex = 100,
         performanceScore = 100, codeToCommentRatio = 0 \<rparr>,
       complexity = \<lparr> ifStatements = 0, forLoops = 0, whileLoops = 0, switchStatements = 0,
         tryCatchBlocks = 0 \<rparr>,
       security = \<lparr> issues = [], score = 100 \<rparr>,
       recommendations = [js ''Code quality looks good! Keep up the good practices''] \<rparr>"
  by (simp add: analyzeCodeComplexity_def analysis_of_def Let_def count_matches_Nil trim_def js_def
      securityIssues_def generateRecommendations_def Math_round_def floor_eq_iff)

text \<open>
  The comment ratio of 23 comment lines among 40 non-empty lines: the double quotient
  times 100 lies just below 57.5 and rounds to 57, where the exact value 57.5 would round
  to 58.
\<close>

lemma comment_ratio_double:
  "Math_round (to_double (to_double (23 / 40) * 100)) = 57
   \<and> Math_round ((23 / 40) * 100) = 58"
  by code_simp


text \<open>
  Claim C1. For every input string, the maintainability index, the performance score and
  the security score of the analysis are integers between 0 and 100. The source only
  bounds them below (\<^verbatim>\<open>Math.max(0, ...)\<close>); the upper bound holds because every
  subtracted term is a count times a positive weight.
\<close>

theorem analyze_scores_in_range:
  "0 \<le> MetricsRecord.maintainabilityIndex (AnalysisResult.metrics (analyzeCodeComplexity s))
   \<and> MetricsRecord.maintainabilityIndex (AnalysisResult.metrics (analyzeCodeComplexity s)) \<le> 100
   \<and> 0 \<le> performanceScore (AnalysisResult.metrics (analyzeCodeComplexity s))
   \<and> performanceScore (AnalysisResult.metrics (analyzeCodeComplexity s)) \<le> 100
   \<and> 0 \<le> score (security (analyzeCodeComplexity s))
   \<and> score (security (analyzeCodeComplexity s)) \<le> 100"
  by (simp add: analyzeCodeComplexity_def analysis_of_def Let_def Math_round_range)

text \<open>
  Claim C3. The issues of the security profile are the messages of the catalog entries
  whose sink occurs in the input, one for each, in catalog order and without repetition,
  however often a sink occurs; the score is \<open>clamp(0, 100, 100 - 20 * number of issues)\<close>.
  An input in which the eval sink occurs and no other sink does has one issue and the
  score 80.
\<close>

theorem security_scan:
  "issues (security (analyzeCodeComplexity s))
     = map snd (filter (\<lambda>(pat, msg). includes_str s pat) sink_catalog)
   \<and> distinct (issues (security (analyzeCodeComplexity s)))
   \<and> score (security (analyzeCodeComplexity s))
     = clamp 0 100 (100 - 20 * int (length (issues (security (analyzeCodeComplexity s)))))
   \<and> (includes_str s (js ''eval('') \<and> \<not> includes_str s (js ''innerHTML'')
        \<and> \<not> includes_str s (js ''document.write'')
      \<longrightarrow> length (issues (security (analyzeCodeComplexity s))) = 1
          \<and> score (security (analyzeCodeComplexity s)) = 80)"
proof -
  have iss: "issues (security (analyzeCodeComplexity s)) = securityIssues s"
    by (simp add: analyzeCodeComplexity_def analysis_of_def Let_def)
  have sc: "score (security (analyzeCodeComplexity s))
     = clamp 0 100 (100 - 20 * int (length (securityIssues s)))"
    by (simp add: analyzeCodeComplexity_def analysis_of_def Let_def clamp_def)
  have one: "includes_str s (js ''eval('') \<and> \<not> includes_str s (js ''innerHTML'')
        \<and> \<not> includes_str s (js ''document.write'')
      \<longrightarrow> length (securityIssues s) = 1"
    by (simp add: securityIssues_def)
  have eighty: "length (securityIssues s) = 1
      \<longrightarrow> clamp 0 100 (100 - 20 * int (length (securityIssues s))) = 80"
    by (simp add: clamp_def)
  show ?thesis
    unfolding iss sc using securityIssues_catalog securityIssues_distinct one eighty by blast
qed

theorem security_scan_witness:
  "includes_str (js ''eval(x); eval(y)'') (js ''eval('')
   \<and> \<not> includes_str (js ''eval(x); eval(y)'') (js ''innerHTML'')
   \<and> \<not> includes_str (js ''eval(x); eval(y)'') (js ''document.write'')
   \<and> length (issues (security (analyzeCodeComplexity (js ''eval(x); eval(y)'')))) = 1
   \<and> score (security (analyzeCodeComplexity (js ''eval(x); eval(y)''))) = 80"
proof -
  have h: "includes_str (js ''eval(x); eval(y)'') (js ''eval('')
   \<and> \<not> includes_str (js ''eval(x); eval(y)'') (js ''innerHTML'')
   \<and> \<not> includes_str (js ''eval(x); eval(y)'') (js ''document.write'')"
    by (simp add: js_def)
  with security_scan [of "js ''eval(x); eval(y)''"] show ?thesis by blast
qed

lemma match_loop_returns: "match_loop re s = Some (count_matches re s)"
proof (induction re s rule: count_matches.induct)
  case (1 re s)
  show ?case
  proof (cases "match_here re s")
    case None
    show ?thesis
    proof (cases s)
      case Nil
      with None show ?thesis
        by (subst match_loop.simps, subst count_matches.simps) simp
    next
      case (Cons c cs)
      with None "1.IH"(1) have "match_loop re cs = Some (count_matches re cs)" by simp
      with None Cons show ?thesis
        by (subst match_loop.simps, subst count_matches.simps) simp
    qed
  next
    case (Some t)
    show ?thesis
    proof (cases "length t < length s")
      case True
      with Some "1.IH"(2) have "match_loop re t = Some (count_matches re t)" by simp
      with Some True show ?thesis
        by (subst match_loop.simps, subst count_matches.simps) simp
    next
      case False
      show ?thesis
      proof (cases s)
        case Nil
        with Some False show ?thesis
          by (subst match_loop.simps, subst count_matches.simps) simp
      next
        case (Cons c cs)
        with Some False "1.IH"(3) have "match_loop re cs = Some (count_matches re cs)" by simp
        with Some False Cons show ?thesis
          by (subst match_loop.simps, subst count_matches.simps) simp
      qed
    qed
  qed
qed

text \<open>
  Claim C4. The analyzer returns for every input string: run as a computation that may
  fail to return, with the scan for matches as a loop, it yields a result, and this result
  is the value of \<open>analyzeCodeComplexity\<close>; there is no error result. On the empty string
  the result has one line, every count 0, the maintainability index 100, the performance
  score 100, the comment ratio 0 and no security issue.
\<close>

theorem analyze_empty:
  "analyze_run s = Some (analyzeCodeComplexity s)
   \<and> totalLines (AnalysisResult.metrics (analyzeCodeComplexity [])) = 1
   \<and> nonEmptyLines (AnalysisResult.metrics (analyzeCodeComplexity [])) = 0
   \<and> commentLines (AnalysisResult.metrics (analyzeCodeComplexity [])) = 0
   \<and> functionCount (AnalysisResult.metrics (analyzeCodeComplexity [])) = 0
   \<and> MetricsRecord.complexityScore (AnalysisResult.metrics (analyzeCodeComplexity [])) = 0
   \<and> MetricsRecord.maintainabilityIndex (AnalysisResult.metrics (analyzeCodeComplexity [])) = 100
   \<and> performanceScore (AnalysisResult.metrics (analyzeCodeComplexity [])) = 100
   \<and> codeToCommentRatio (AnalysisResult.metrics (analyzeCodeComplexity [])) = 0
   \<and> issues (security (analyzeCodeComplexity [])) = []"
proof -
  have "analyze_run s = Some (analyzeCodeComplexity s)"
    by (simp add: analyze_run_def analyzeCodeComplexity_def match_loop_returns)
  then show ?thesis by (simp add: analyze_Nil)
qed

text \<open>
  Claim C5. The maintainability index that the analyzer returns is the formula of the
  specification, \<open>clamp(0, 100, round(100 - 2*complexityScore - 1.5*functionCount -
  0.1*totalLines))\<close>, at the complexity score, function count and line count of the same
  result. The source rounds after taking the maximum with 0 and has no minimum with 100.
\<close>

theorem maintainabilityIndex_formula:
  "MetricsRecord.maintainabilityIndex (AnalysisResult.metrics (analyzeCodeComplexity s))
   = spec_maintainabilityIndex
       (MetricsRecord.complexityScore (AnalysisResult.metrics (analyzeCodeComplexity s)))
       (functionCount (AnalysisResult.metrics (analyzeCodeComplexity s)))
       (totalLines (AnalysisResult.metrics (analyzeCodeComplexity s)))"
proof -
  let ?c = "MetricsRecord.complexityScore (AnalysisResult.metrics (analyzeCodeComplexity s))"
  let ?f = "functionCount (AnalysisResult.metrics (analyzeCodeComplexity s))"
  let ?t = "totalLines (AnalysisResult.metrics (analyzeCodeComplexity s))"
  let ?x = "100 - 2 * (of_nat ?c :: rat) - (3 / 2) * of_nat ?f - (1 / 10) * of_nat ?t"
  have le: "?x \<le> 100" by simp
  have "MetricsRecord.maintainabilityIndex (AnalysisResult.metrics (analyzeCodeComplexity s))
        = Math_round (max 0 ?x)"
    by (simp add: analyzeCodeComplexity_def analysis_of_def Let_def mult.commute)
  also have "\<dots> = clamp 0 100 (round ?x)" using le by (rule Math_round_max0)
  finally show ?thesis by (simp only: spec_maintainabilityIndex_def)
qed

text \<open>
  Claim C9. The security score is one of 100, 80, 60 and 40, hence at least 40: the scan
  makes three tests, so there are at most three issues and the maximum with 0 never
  takes effect.
\<close>

theorem security_score_values:
  "score (security (analyzeCodeComplexity s)) \<in> {100, 80, 60, 40}
   \<and> 40 \<le> score (security (analyzeCodeComplexity s))
   \<and> length (issues (security (analyzeCodeComplexity s))) \<le> length sink_catalog
   \<and> length sink_catalog = 3"
proof -
  have cat: "length sink_catalog = 3" by (simp add: sink_catalog_def)
  let ?n = "length (securityIssues s)"
  have iss: "issues (security (analyzeCodeComplexity s)) = securityIssues s"
    by (simp add: analyzeCodeComplexity_def analysis_of_def Let_def)
  have sc: "score (security (analyzeCodeComplexity s)) = max 0 (100 - int ?n * 20)"
    by (simp add: analyzeCodeComplexity_def analysis_of_def Let_def)
  have "?n \<le> 3" by (rule securityIssues_length)
  then have "?n = 0 \<or> ?n = 1 \<or> ?n = 2 \<or> ?n = 3" by arith
  then have "max 0 (100 - int ?n * 20) \<in> {100, 80, 60, 40}" by auto
  then show ?thesis unfolding iss sc cat using \<open>?n \<le> 3\<close> by auto
qed

section \<open>Properties of the evolution store\<close>

lemma load_after_save: "loadEvolutionData (fs_run (saveEvolutionData d) fs) = Inr d"
  by (simp add: loadEvolutionData_def saveEvolutionData_def)

lemma record_ok:
  "truthy_str r \<Longrightarrow> m \<noteq> None \<Longrightarrow> loadEvolutionData fs = Inr d \<Longrightarrow>
   evolution_record now r c t m f fs
     = (Inr (), fs_run (saveEvolutionData (d @ [new_snapshot now r c t m f])) fs)"
  by (simp add: evolution_record_def)

lemma record_invalid:
  "\<not> truthy_str r \<or> m = None \<Longrightarrow> evolution_record now r c t m f fs = (Inl ValidationError, fs)"
  by (auto simp add: evolution_record_def)

lemma load_error: "loadEvolutionData fs = Inl e \<Longrightarrow> e = SyntaxError"
  by (auto simp add: loadEvolutionData_def split: option.splits file_content.splits)

text \<open>
  Claim C7. The record handler answers with a validation error exactly when the
  repository is missing or empty or the metrics are absent, and then leaves the file
  system as it was. Otherwise, on a backing file that can be read, it succeeds and the
  store holds the former snapshots followed by the new one, which has the repository,
  commit, metrics and file of the request and the current time as its timestamp when the
  request had none. The handler never compares with the stored snapshots: the new
  snapshot is appended also when an equal one is stored, and then occurs once more than
  before.
\<close>

theorem record_contract:
  "(fst (evolution_record now r c t m f fs) = Inl ValidationError
            \<longleftrightarrow> (\<not> truthy_str r \<or> m = None))
     \<and> (\<not> truthy_str r \<or> m = None \<longrightarrow> snd (evolution_record now r c t m f fs) = fs)
     \<and> (truthy_str r \<and> m \<noteq> None \<and> loadEvolutionData fs = Inr d \<longrightarrow>
          fst (evolution_record now r c t m f fs) = Inr ()
          \<and> loadEvolutionData (snd (evolution_record now r c t m f fs))
              = Inr (d @ [new_snapshot now r c t m f])
          \<and> count_list (d @ [new_snapshot now r c t m f]) (new_snapshot now r c t m f)
              = Suc (count_list d (new_snapshot now r c t m f))
          \<and> repo (new_snapshot now r c t m f) = the r
          \<and> metrics (new_snapshot now r c t m f) = the m
          \<and> commit (new_snapshot now r c t m f) = c
          \<and> EvolutionSnapshot.file (new_snapshot now r c t m f) = f
          \<and> (t = None \<longrightarrow> timestamp (new_snapshot now r c t m f) = now))"
proof (cases "truthy_str r \<and> m \<noteq> None")
  case False
  then have e: "evolution_record now r c t m f fs = (Inl ValidationError, fs)"
    by (auto simp add: record_invalid)
  show ?thesis unfolding e using False by auto
next
  case True
  show ?thesis
  proof (cases "loadEvolutionData fs")
    case (Inl err)
    then have "err = SyntaxError" by (rule load_error)
    with Inl True have e: "evolution_record now r c t m f fs = (Inl SyntaxError, fs)"
      by (simp add: evolution_record_def)
    show ?thesis unfolding e using True Inl by auto
  next
    case (Inr d')
    with True have e: "evolution_record now r c t m f fs
       = (Inr (), fs_run (saveEvolutionData (d' @ [new_snapshot now r c t m f])) fs)"
      by (simp add: record_ok)
    show ?thesis unfolding e using True Inr
      by (auto simp add: load_after_save new_snapshot_def)
  qed
qed

theorem record_contract_witness:
  "loadEvolutionData (example_store [example_snapshot 10 3]) = Inr [example_snapshot 10 3]
   \<and> evolution_record 1700000000000 (Some (js ''acme/app'')) None None
         (Some (example_metrics 3)) (Some (js ''src/a.ts'')) (example_store [example_snapshot 10 3])
       = (Inr (), example_store [example_snapshot 10 3, example_snapshot 1700000000000 3])
   \<and> evolution_record 1700000000000 (Some (js ''acme/app'')) None (Some 10)
         (Some (example_metrics 3)) (Some (js ''src/a.ts'')) (example_store [example_snapshot 10 3])
       = (Inr (), example_store [example_snapshot 10 3, example_snapshot 10 3])
   \<and> evolution_record 1700000000000 (Some []) None (Some 10)
         (Some (example_metrics 3)) (Some (js ''src/a.ts'')) (example_store [example_snapshot 10 3])
       = (Inl ValidationError, example_store [example_snapshot 10 3])
   \<and> evolution_record 1700000000000 (Some (js ''acme/app'')) None (Some 10)
         None (Some (js ''src/a.ts'')) (example_store [example_snapshot 10 3])
       = (Inl ValidationError, example_store [example_snapshot 10 3])"
proof -
  let ?fs = "example_store [example_snapshot 10 3]"
  let ?r = "Some (js ''acme/app'')"
  let ?m = "Some (example_metrics 3)"
  let ?f = "Some (js ''src/a.ts'')"
  have h: "loadEvolutionData ?fs = Inr [example_snapshot 10 3]"
    by (simp add: loadEvolutionData_def example_store_def)
  have t: "truthy_str ?r" by (simp add: js_def)
  have n1: "new_snapshot 1700000000000 ?r None None ?m ?f = example_snapshot 1700000000000 3"
    by (simp add: new_snapshot_def example_snapshot_def example_snapshot_of_def)
  have n2: "new_snapshot 1700000000000 ?r None (Some 10) ?m ?f = example_snapshot 10 3"
    by (simp add: new_snapshot_def example_snapshot_def example_snapshot_of_def)
  have s: "snd (evolution_record 1700000000000 ?r None ts ?m ?f ?fs)
      = example_store [example_snapshot 10 3, new_snapshot 1700000000000 ?r None ts ?m ?f]" for ts
    using t by (simp add: evolution_record_def loadEvolutionData_def saveEvolutionData_def
        example_store_def)
  have 1: "evolution_record 1700000000000 ?r None None ?m ?f ?fs
       = (Inr (), example_store [example_snapshot 10 3, example_snapshot 1700000000000 3])"
    using h t s [of None]
      record_contract [of 1700000000000 ?r None None ?m ?f ?fs "[example_snapshot 10 3]"]
    by (simp add: prod_eq_iff n1)
  have 2: "evolution_record 1700000000000 ?r None (Some 10) ?m ?f ?fs
       = (Inr (), example_store [example_snapshot 10 3, example_snapshot 10 3])"
    using h t s [of "Some 10"]
      record_contract [of 1700000000000 ?r None "Some 10" ?m ?f ?fs "[example_snapshot 10 3]"]
    by (simp add: prod_eq_iff n2)
  have 3: "evolution_record 1700000000000 (Some []) None (Some 10) ?m ?f ?fs
       = (Inl ValidationError, ?fs)"
    using record_contract [of 1700000000000 "Some []" None "Some 10" ?m ?f ?fs "[]"]
    by (simp add: prod_eq_iff)
  have 4: "evolution_record 1700000000000 ?r None (Some 10) None ?f ?fs
       = (Inl ValidationError, ?fs)"
    using record_contract [of 1700000000000 ?r None "Some 10" None ?f ?fs "[]"]
    by (simp add: prod_eq_iff)
  from h 1 2 3 4 show ?thesis by (intro conjI)
qed

text \<open>
  Claim C6. After a successful record on a readable store in which the new snapshot was
  not present, the timeline of the same repository, asked without a file or with the file
  of the snapshot, contains the new snapshot exactly once.
\<close>

theorem record_then_timeline:
  assumes "loadEvolutionData fs = Inr d"
    and "evolution_record now (Some r) c t (Some m) f fs = (Inr (), fs')"
    and "new_snapshot now (Some r) c t (Some m) f \<notin> set d"
    and "q = None \<or> q = f"
  shows "\<exists>tl. evolution_timeline (Some r) q fs' = Inr tl
            \<and> count_list tl (new_snapshot now (Some r) c t (Some m) f) = 1"
proof -
  let ?s = "new_snapshot now (Some r) c t (Some m) f"
  have tr: "truthy_str (Some r)"
    using assms(2) by (auto simp add: evolution_record_def split: if_splits)
  then have "evolution_record now (Some r) c t (Some m) f fs
     = (Inr (), fs_run (saveEvolutionData (d @ [?s])) fs)"
    using assms(1) by (simp add: record_ok)
  with assms(2) have fs': "fs' = fs_run (saveEvolutionData (d @ [?s])) fs" by simp
  have ld: "loadEvolutionData fs' = Inr (d @ [?s])" unfolding fs' by (rule load_after_save)
  let ?P = "\<lambda>snap. repo snap = r \<and> (\<not> truthy_str q \<or> EvolutionSnapshot.file snap = q)"
  have tl: "evolution_timeline (Some r) q fs' = Inr (filter ?P (d @ [?s]))"
    using tr ld by (simp add: evolution_timeline_def)
  have P: "?P ?s" using assms(4) by (auto simp add: new_snapshot_def)
  have "count_list (filter ?P d) ?s = 0" using assms(3) by (simp add: count_list_0_iff)
  then have "count_list (filter ?P (d @ [?s])) ?s = 1" using P by simp
  with tl show ?thesis by blast
qed

theorem record_then_timeline_witness:
  "loadEvolutionData (example_store [example_snapshot 10 3]) = Inr [example_snapshot 10 3]
   \<and> evolution_record 1700000000000 (Some (js ''acme/app'')) None (Some 20)
         (Some (example_metrics 9)) (Some (js ''src/a.ts'')) (example_store [example_snapshot 10 3])
       = (Inr (), example_store [example_snapshot 10 3, example_snapshot 20 9])
   \<and> example_snapshot 20 9 \<notin> set [example_snapshot 10 3]
   \<and> (\<exists>tl. evolution_timeline (Some (js ''acme/app'')) (Some (js ''src/a.ts''))
               (example_store [example_snapshot 10 3, example_snapshot 20 9]) = Inr tl
           \<and> count_list tl (example_snapshot 20 9) = 1)"
proof -
  let ?fs = "example_store [example_snapshot 10 3]"
  let ?fs' = "example_store [example_snapshot 10 3, example_snapshot 20 9]"
  let ?m = "Some (example_metrics 9)"
  let ?f = "Some (js ''src/a.ts'')"
  have n: "new_snapshot 1700000000000 (Some (js ''acme/app'')) None (Some 20) ?m ?f
         = example_snapshot 20 9"
    by (simp add: new_snapshot_def example_snapshot_def example_snapshot_of_def)
  have h1: "loadEvolutionData ?fs = Inr [example_snapshot 10 3]"
    by (simp add: loadEvolutionData_def example_store_def)
  have t: "truthy_str (Some (js ''acme/app''))" by (simp add: js_def)
  have h2: "evolution_record 1700000000000 (Some (js ''acme/app'')) None (Some 20) ?m ?f ?fs
       = (Inr (), ?fs')"
    using t by (simp add: evolution_record_def loadEvolutionData_def saveEvolutionData_def
        example_store_def n)
  have h3: "example_snapshot 20 9 \<notin> set [example_snapshot 10 3]"
    by (simp add: example_snapshot_def example_snapshot_of_def)
  have h4: "?f = None \<or> ?f = ?f" by simp
  have "\<exists>tl. evolution_timeline (Some (js ''acme/app'')) ?f ?fs' = Inr tl
            \<and> count_list tl (new_snapshot 1700000000000 (Some (js ''acme/app'')) None (Some 20) ?m ?f) = 1"
    using h1 h2 h3 [folded n] h4 by (rule record_then_timeline)
  then have "\<exists>tl. evolution_timeline (Some (js ''acme/app'')) ?f ?fs' = Inr tl
            \<and> count_list tl (example_snapshot 20 9) = 1"
    unfolding n .
  with h1 h2 h3 show ?thesis by (intro conjI)
qed

text \<open>
  Claim C10. A timestamp of 0 in the request is treated like a missing one: the stored
  snapshot carries the current time. With a clock that does not read 0 (the time in
  milliseconds since 1970), the snapshot that a record appends never has the timestamp 0,
  so a store without such a snapshot stays without one.
\<close>

theorem falsy_timestamp_replaced:
  assumes "now \<noteq> 0" and "loadEvolutionData fs = Inr d"
    and "truthy_str r" and "m \<noteq> None"
  shows "loadEvolutionData (snd (evolution_record now r c t m f fs))
           = Inr (d @ [new_snapshot now r c t m f])
     \<and> (t = Some 0 \<or> t = None \<longrightarrow> timestamp (new_snapshot now r c t m f) = now)
     \<and> timestamp (new_snapshot now r c t m f) \<noteq> 0
     \<and> (list_all (\<lambda>s. timestamp s \<noteq> 0) d
          \<longrightarrow> list_all (\<lambda>s. timestamp s \<noteq> 0) (d @ [new_snapshot now r c t m f]))"
proof -
  have "evolution_record now r c t m f fs
     = (Inr (), fs_run (saveEvolutionData (d @ [new_snapshot now r c t m f])) fs)"
    using assms by (simp add: record_ok)
  then have 1: "loadEvolutionData (snd (evolution_record now r c t m f fs))
           = Inr (d @ [new_snapshot now r c t m f])" by (simp add: load_after_save)
  have 2: "t = Some 0 \<or> t = None \<longrightarrow> timestamp (new_snapshot now r c t m f) = now"
    by (auto simp add: new_snapshot_def)
  have 3: "timestamp (new_snapshot now r c t m f) \<noteq> 0"
    using assms(1) by (cases t) (auto simp add: new_snapshot_def)
  from 1 2 3 show ?thesis by simp
qed

theorem falsy_timestamp_replaced_witness:
  "(1700000000000::int) \<noteq> 0
   \<and> loadEvolutionData (example_store []) = Inr []
   \<and> truthy_str (Some (js ''acme/app''))
   \<and> loadEvolutionData (snd (evolution_record 1700000000000 (Some (js ''acme/app'')) None (Some 0)
         (Some (example_metrics 3)) (Some (js ''src/a.ts'')) (example_store [])))
       = Inr [example_snapshot 1700000000000 3]"
proof -
  let ?m = "Some (example_metrics 3)"
  let ?f = "Some (js ''src/a.ts'')"
  have h1: "(1700000000000::int) \<noteq> 0" by simp
  have h2: "loadEvolutionData (example_store []) = Inr []"
    by (simp add: loadEvolutionData_def example_store_def)
  have h3: "truthy_str (Some (js ''acme/app''))" by (simp add: js_def)
  have h4: "?m \<noteq> None" by simp
  have n: "new_snapshot 1700000000000 (Some (js ''acme/app'')) None (Some 0) ?m ?f
         = example_snapshot 1700000000000 3"
    by (simp add: new_snapshot_def example_snapshot_def example_snapshot_of_def)
  from falsy_timestamp_replaced [OF h1 h2 h3 h4, of None "Some 0" ?f]
  have "loadEvolutionData (snd (evolution_record 1700000000000 (Some (js ''acme/app'')) None (Some 0)
         ?m ?f (example_store []))) = Inr [example_snapshot 1700000000000 3]"
    by (simp add: n)
  with h1 h2 h3 show ?thesis by (intro conjI)
qed

text \<open>
  Claim C8, as stated, fails. Recording a second snapshot into a store that holds one
  writes in place, not by the discipline of temporary file and rename, and the first
  state that the file system passes through has a backing file that cannot be parsed:
  the snapshot that was durable before is not readable there.
\<close>

theorem save_not_atomic:
  "evolution_record 1700000000000 (Some (js ''acme/app'')) None (Some 20)
       (Some (example_metrics 9)) (Some (js ''src/a.ts'')) (example_store [example_snapshot 10 3])
     = (Inr (), fs_run (saveEvolutionData [example_snapshot 10 3, example_snapshot 20 9])
                  (example_store [example_snapshot 10 3]))
   \<and> \<not> atomic_replace_on_write (saveEvolutionData [example_snapshot 10 3, example_snapshot 20 9])
   \<and> loadEvolutionData (hd (fs_trace (saveEvolutionData [example_snapshot 10 3, example_snapshot 20 9])
         (example_store [example_snapshot 10 3]))) = Inl SyntaxError"
proof -
  have n: "new_snapshot 1700000000000 (Some (js ''acme/app'')) None (Some 20)
             (Some (example_metrics 9)) (Some (js ''src/a.ts'')) = example_snapshot 20 9"
    by (simp add: new_snapshot_def example_snapshot_def example_snapshot_of_def)
  have t: "truthy_str (Some (js ''acme/app''))" by (simp add: js_def)
  have 1: "evolution_record 1700000000000 (Some (js ''acme/app'')) None (Some 20)
       (Some (example_metrics 9)) (Some (js ''src/a.ts'')) (example_store [example_snapshot 10 3])
     = (Inr (), fs_run (saveEvolutionData [example_snapshot 10 3, example_snapshot 20 9])
                  (example_store [example_snapshot 10 3]))"
    using t by (simp add: evolution_record_def loadEvolutionData_def example_store_def n)
  have 2: "\<not> atomic_replace_on_write (saveEvolutionData [example_snapshot 10 3, example_snapshot 20 9])"
    by (simp add: atomic_replace_on_write_def saveEvolutionData_def)
  have 3: "loadEvolutionData (hd (fs_trace (saveEvolutionData [example_snapshot 10 3, example_snapshot 20 9])
         (example_store [example_snapshot 10 3]))) = Inl SyntaxError"
    by (simp add: saveEvolutionData_def loadEvolutionData_def)
  from 1 2 3 show ?thesis by (intro conjI)
qed

text \<open>
  Claim C8, as amended. The durable write of record is a single
  \<^verbatim>\<open>fs.writeFileSync\<close> of the whole collection to the backing file itself: there is
  no temporary file and no rename. When the call has returned, the backing file holds the
  collection (for a record: the former snapshots followed by the new one) and no other
  path has changed; while the call is under way the backing file holds a proper prefix of
  the new text.
\<close>

theorem save_in_place:
  "saveEvolutionData d = [WriteFileSync EVOLUTION_DB_PATH d]
   \<and> fs_trace (saveEvolutionData d) fs
       = [fs(EVOLUTION_DB_PATH \<mapsto> Partial d), fs(EVOLUTION_DB_PATH \<mapsto> Complete d)]
   \<and> fs_run (saveEvolutionData d) fs = fs(EVOLUTION_DB_PATH \<mapsto> Complete d)
   \<and> loadEvolutionData (fs_run (saveEvolutionData d) fs) = Inr d
   \<and> (loadEvolutionData fs = Inr old \<and> truthy_str r \<and> m \<noteq> None \<longrightarrow>
        snd (evolution_record now r c t m f fs)
          = fs(EVOLUTION_DB_PATH \<mapsto> Complete (old @ [new_snapshot now r c t m f])))"
  by (simp add: saveEvolutionData_def loadEvolutionData_def evolution_record_def)

theorem save_in_place_witness:
  "loadEvolutionData (example_store [example_snapshot 10 3]) = Inr [example_snapshot 10 3]
   \<and> truthy_str (Some (js ''acme/app''))
   \<and> snd (evolution_record 1700000000000 (Some (js ''acme/app'')) None (Some 20)
         (Some (example_metrics 9)) (Some (js ''src/a.ts'')) (example_store [example_snapshot 10 3]))
       = example_store [example_snapshot 10 3, example_snapshot 20 9]"
proof -
  let ?m = "Some (example_metrics 9)"
  let ?f = "Some (js ''src/a.ts'')"
  have n: "new_snapshot 1700000000000 (Some (js ''acme/app'')) None (Some 20) ?m ?f
         = example_snapshot 20 9"
    by (simp add: new_snapshot_def example_snapshot_def example_snapshot_of_def)
  have h: "loadEvolutionData (example_store [example_snapshot 10 3]) = Inr [example_snapshot 10 3]"
    by (simp add: loadEvolutionData_def example_store_def)
  have t: "truthy_str (Some (js ''acme/app''))" by (simp add: js_def)
  from save_in_place [of "[]" "example_store [example_snapshot 10 3]" "[example_snapshot 10 3]"
      "Some (js ''acme/app'')" ?m 1700000000000 None "Some 20" ?f] h t
  have "snd (evolution_record 1700000000000 (Some (js ''acme/app'')) None (Some 20) ?m ?f
          (example_store [example_snapshot 10 3]))
       = example_store [example_snapshot 10 3, example_snapshot 20 9]"
    by (simp add: n example_store_def)
  with h t show ?thesis by (intro conjI)
qed

section \<open>Properties of the hotspot trend engine\<close>

lemma map_of_map_upd:
  "map_of (map (\<lambda>(k, v). if k = f then (k, h v) else (k, v)) bf) k
     = (if k = f then map_option h (map_of bf k) else map_of bf k)"
  by (induction bf) auto

lemma fst_map_upd:
  "map (fst \<circ> (\<lambda>(k, v). if k = f then (k, h v) else (k, v))) bf = map fst bf"
  by (induction bf) auto

lemma empty_not_inherited: "[] \<notin> set Object_prototype_keys"
  by (simp add: Object_prototype_keys_def js_def)

lemma group_push_own:
  assumes "\<not> inherited_file s"
  shows "\<exists>bf'. group_push bf s = Inr bf'
     \<and> (\<forall>k. map_of bf' k = (if in_file k s then Some (grp bf k @ [s]) else map_of bf k))
     \<and> (distinct (map fst bf) \<longrightarrow> distinct (map fst bf'))"
proof (cases "truthy_str (EvolutionSnapshot.file s)")
  case False
  then have "group_push bf s = Inr bf" by (simp add: group_push_def)
  moreover from False have "\<not> in_file k s" for k
    by (cases "EvolutionSnapshot.file s") (auto simp add: in_file_def)
  ultimately show ?thesis by simp
next
  case True
  then obtain f where f: "EvolutionSnapshot.file s = Some f" "f \<noteq> []"
    by (cases "EvolutionSnapshot.file s") auto
  with assms have own: "f \<notin> set Object_prototype_keys" by (simp add: inherited_file_def)
  have inf: "in_file k s \<longleftrightarrow> k = f" for k using f by (auto simp add: in_file_def)
  show ?thesis
  proof (cases "map_of bf f")
    case None
    with f own have "group_push bf s = Inr (bf @ [(f, [s])])"
      by (simp add: group_push_def)
    moreover have "map_of (bf @ [(f, [s])]) k
        = (if in_file k s then Some (grp bf k @ [s]) else map_of bf k)" for k
      using None by (auto simp add: inf grp_def map_add_def split: option.splits)
    moreover have "distinct (map fst (bf @ [(f, [s])]))" if "distinct (map fst bf)"
      using that None by (simp add: map_of_eq_None_iff)
    ultimately show ?thesis by simp
  next
    case (Some g)
    let ?bf' = "map (\<lambda>(k, v). if k = f then (k, v @ [s]) else (k, v)) bf"
    from Some f have "group_push bf s = Inr ?bf'" by (simp add: group_push_def)
    moreover have "map_of ?bf' k = (if in_file k s then Some (grp bf k @ [s]) else map_of bf k)" for k
      using Some by (auto simp add: inf grp_def map_of_map_upd)
    moreover have "distinct (map fst ?bf')" if "distinct (map fst bf)"
      using that by (simp add: fst_map_upd)
    ultimately show ?thesis by simp
  qed
qed

lemma group_all_own:
  "list_all (\<lambda>s. \<not> inherited_file s) xs \<Longrightarrow>
   \<exists>bf'. group_all bf xs = Inr bf'
     \<and> (\<forall>k. map_of bf' k = (if filter (in_file k) xs = [] then map_of bf k
                              else Some (grp bf k @ filter (in_file k) xs)))
     \<and> (distinct (map fst bf) \<longrightarrow> distinct (map fst bf'))"
proof (induction xs arbitrary: bf)
  case Nil
  then show ?case by simp
next
  case (Cons x xs)
  from Cons.prems have nx: "\<not> inherited_file x" and rest: "list_all (\<lambda>s. \<not> inherited_file s) xs"
    by simp_all
  from group_push_own [OF nx, of bf] obtain b1 where
    p: "group_push bf x = Inr b1"
    and m1: "\<And>k. map_of b1 k = (if in_file k x then Some (grp bf k @ [x]) else map_of bf k)"
    and d1: "distinct (map fst bf) \<longrightarrow> distinct (map fst b1)"
    by blast
  from Cons.IH [OF rest, of b1] obtain b2 where
    a: "group_all b1 xs = Inr b2"
    and m2: "\<And>k. map_of b2 k = (if filter (in_file k) xs = [] then map_of b1 k
                              else Some (grp b1 k @ filter (in_file k) xs))"
    and d2: "distinct (map fst b1) \<longrightarrow> distinct (map fst b2)"
    by blast
  have "group_all bf (x # xs) = Inr b2" using p a by simp
  moreover have "map_of b2 k = (if filter (in_file k) (x # xs) = [] then map_of bf k
                              else Some (grp bf k @ filter (in_file k) (x # xs)))" for k
    by (simp add: m2 m1 grp_def)
  moreover have "distinct (map fst bf) \<longrightarrow> distinct (map fst b2)" using d1 d2 by blast
  ultimately show ?case by blast
qed

lemma group_all_inherited:
  "\<exists>s \<in> set xs. inherited_file s \<Longrightarrow>
   \<forall>k \<in> set (map fst bf). k \<notin> set Object_prototype_keys \<Longrightarrow>
   group_all bf xs = Inl TypeError"
proof (induction xs arbitrary: bf)
  case Nil
  then show ?case by simp
next
  case (Cons x xs)
  show ?case
  proof (cases "inherited_file x")
    case True
    then obtain f where f: "EvolutionSnapshot.file x = Some f" "f \<in> set Object_prototype_keys"
      by (auto simp add: inherited_file_def split: option.splits)
    then have ne: "f \<noteq> []" using empty_not_inherited by auto
    from f Cons.prems(2) have "f \<notin> fst ` set bf" by auto
    then have "map_of bf f = None" by (simp add: map_of_eq_None_iff)
    with f ne have "group_push bf x = Inl TypeError" by (simp add: group_push_def)
    then show ?thesis by simp
  next
    case False
    from group_push_own [OF False, of bf] obtain b1 where
      p: "group_push bf x = Inr b1"
      and m1: "\<And>k. map_of b1 k = (if in_file k x then Some (grp bf k @ [x]) else map_of bf k)"
      by blast
    have keys: "\<forall>k \<in> set (map fst b1). k \<notin> set Object_prototype_keys"
    proof
      fix k assume "k \<in> set (map fst b1)"
      then have "map_of b1 k \<noteq> None" by (simp add: map_of_eq_None_iff)
      then have "in_file k x \<or> map_of bf k \<noteq> None" by (simp add: m1 split: if_splits)
      then show "k \<notin> set Object_prototype_keys"
      proof
        assume "in_file k x"
        with False show ?thesis by (auto simp add: in_file_def inherited_file_def)
      next
        assume "map_of bf k \<noteq> None"
        then have "k \<in> set (map fst bf)" by (simp add: map_of_eq_None_iff)
        with Cons.prems(2) show ?thesis by blast
      qed
    qed
    from Cons.prems(1) False have "\<exists>s \<in> set xs. inherited_file s" by auto
    from Cons.IH [OF this keys] p show ?thesis by simp
  qed
qed

lemma filter_key_distinct:
  "distinct (map fst es) \<Longrightarrow>
   filter (\<lambda>e. fst e = f) es = (case map_of es f of None \<Rightarrow> [] | Some g \<Rightarrow> [(f, g)])"
proof (induction es)
  case Nil
  then show ?case by simp
next
  case (Cons e es)
  obtain k v where e: "e = (k, v)" by (cases e)
  show ?case
  proof (cases "k = f")
    case True
    with Cons.prems e have "map_of es f = None" "filter (\<lambda>e. fst e = f) es = []"
      by (auto simp add: map_of_eq_None_iff filter_empty_conv)
    with True e show ?thesis by simp
  next
    case False
    with Cons e show ?thesis by simp
  qed
qed

lemma set_object_entries: "set (object_entries bf) = set bf"
  by (auto simp add: object_entries_def)

lemma distinct_object_entries:
  assumes "distinct (map fst bf)"
  shows "distinct (map fst (object_entries bf))"
proof -
  from assms have d: "distinct bf" and i: "inj_on fst (set bf)"
    by (simp_all add: distinct_map)
  have "distinct (object_entries bf)"
    using d by (auto simp add: object_entries_def)
  with i show ?thesis by (simp add: distinct_map set_object_entries)
qed

lemma map_of_object_entries:
  "distinct (map fst bf) \<Longrightarrow> map_of (object_entries bf) = map_of bf"
  by (simp add: map_of_inject_set distinct_object_entries set_object_entries)

lemma hotspot_of_pos:
  "0 < N \<Longrightarrow> hotspot_of N (f, g)
     = Inr (if int (length g) < N then None else Some (hotspot_entry N f (sort_key timestamp g)))"
  by (simp add: hotspot_of_def Let_def)

lemma hotspot_map_pos:
  "0 < N \<Longrightarrow> hotspot_map N es
     = Inr (map (\<lambda>e. if int (length (snd e)) < N then None
                      else Some (hotspot_entry N (fst e) (sort_key timestamp (snd e)))) es)"
proof (induction es)
  case Nil
  then show ?case by simp
next
  case (Cons e es)
  then show ?case by (cases e) (simp add: hotspot_of_pos)
qed

lemma filter_Boolean_map:
  "filter_Boolean (map (\<lambda>e. if P e then None else Some (h e)) es)
     = map h (filter (\<lambda>e. \<not> P e) es)"
  by (induction es) auto

lemma file_hotspot_entry: "HotspotEntry.file (hotspot_entry N f g) = f"
  by (simp add: hotspot_entry_def Let_def)

lemma in_file_repo:
  "f \<noteq> [] \<Longrightarrow> filter (in_file f) (filter (\<lambda>snap. repo snap = r) d)
     = filter (\<lambda>s. repo s = r \<and> EvolutionSnapshot.file s = Some f) d"
  by (induction d) (auto simp add: in_file_def)

lemma grouped:
  assumes "\<forall>s \<in> set d. repo s = r \<longrightarrow> \<not> inherited_file s"
  shows "\<exists>bf. group_all [] (filter (\<lambda>snap. repo snap = r) d) = Inr bf
     \<and> distinct (map fst bf)
     \<and> (\<forall>f. f \<noteq> [] \<longrightarrow> map_of bf f
           = (if filter (\<lambda>s. repo s = r \<and> EvolutionSnapshot.file s = Some f) d = [] then None
              else Some (filter (\<lambda>s. repo s = r \<and> EvolutionSnapshot.file s = Some f) d)))
     \<and> (\<forall>k \<in> set (map fst bf). \<exists>s \<in> set d. repo s = r \<and> in_file k s)"
proof -
  let ?data = "filter (\<lambda>snap. repo snap = r) d"
  from assms have "list_all (\<lambda>s. \<not> inherited_file s) ?data" by (simp add: list_all_iff)
  from group_all_own [OF this, of "[]"] obtain bf where
    g: "group_all [] ?data = Inr bf"
    and m: "\<And>k. map_of bf k = (if filter (in_file k) ?data = [] then None
                              else Some (filter (in_file k) ?data))"
    and dist: "distinct (map fst bf)"
    by (auto simp add: grp_def)
  have own: "map_of bf f
       = (if filter (\<lambda>s. repo s = r \<and> EvolutionSnapshot.file s = Some f) d = [] then None
          else Some (filter (\<lambda>s. repo s = r \<and> EvolutionSnapshot.file s = Some f) d))"
    if "f \<noteq> []" for f
    unfolding m in_file_repo [OF that] ..
  have keys: "\<exists>s \<in> set d. repo s = r \<and> in_file k s" if "k \<in> set (map fst bf)" for k
  proof -
    from that have "map_of bf k \<noteq> None" by (simp add: map_of_eq_None_iff)
    then have "filter (in_file k) ?data \<noteq> []" by (simp add: m split: if_splits)
    then show ?thesis by (auto simp add: filter_empty_conv)
  qed
  from g dist own keys show ?thesis by blast
qed

lemma hotspots_eq:
  assumes "loadEvolutionData fs = Inr d" and "r \<noteq> []" and "0 < N"
    and "group_all [] (filter (\<lambda>snap. repo snap = r) d) = Inr bf"
  shows "evolution_hotspots (Some r) (Some N) fs
     = Inr (sort_key (\<lambda>h. - complexityTrend h)
         (map (\<lambda>e. hotspot_entry N (fst e) (sort_key timestamp (snd e)))
           (filter (\<lambda>e. \<not> int (length (snd e)) < N) (object_entries bf))))"
  using assms
  by (simp add: evolution_hotspots_def Let_def window_size_def hotspot_map_pos filter_Boolean_map)

lemma hotspots_of_file:
  assumes "loadEvolutionData fs = Inr d" and "r \<noteq> []" and "0 < N" and "f \<noteq> []"
    and "\<forall>s \<in> set d. repo s = r \<longrightarrow> \<not> inherited_file s"
  shows "\<exists>hs. evolution_hotspots (Some r) (Some N) fs = Inr hs
     \<and> filter (\<lambda>h. HotspotEntry.file h = f) hs
        = (if int (length (filter (\<lambda>s. repo s = r \<and> EvolutionSnapshot.file s = Some f) d)) < N
           then []
           else [hotspot_entry N f (sort_key timestamp
                   (filter (\<lambda>s. repo s = r \<and> EvolutionSnapshot.file s = Some f) d))])"
proof -
  let ?G = "filter (\<lambda>s. repo s = r \<and> EvolutionSnapshot.file s = Some f) d"
  from grouped [OF assms(5)] obtain bf where
    g: "group_all [] (filter (\<lambda>snap. repo snap = r) d) = Inr bf"
    and dist: "distinct (map fst bf)"
    and m: "map_of bf f = (if ?G = [] then None else Some ?G)"
    using assms(4) by blast
  let ?es = "object_entries bf"
  let ?H = "\<lambda>e. hotspot_entry N (fst e) (sort_key timestamp (snd e))"
  let ?Q = "\<lambda>e. \<not> int (length (snd e)) < N"
  let ?hs = "sort_key (\<lambda>h. - complexityTrend h) (map ?H (filter ?Q ?es))"
  have eq: "evolution_hotspots (Some r) (Some N) fs = Inr ?hs"
    using assms(1-3) g by (rule hotspots_eq)
  have ent: "filter (\<lambda>e. fst e = f) ?es = (if ?G = [] then [] else [(f, ?G)])"
    using dist by (simp add: filter_key_distinct distinct_object_entries map_of_object_entries m)
  have "filter (\<lambda>h. HotspotEntry.file h = f) ?hs
      = sort_key (\<lambda>h. - complexityTrend h)
          (map ?H (filter (\<lambda>e. fst e = f) (filter ?Q ?es)))"
    by (simp add: filter_sort filter_map comp_def file_hotspot_entry)
  also have "filter (\<lambda>e. fst e = f) (filter ?Q ?es) = filter ?Q (filter (\<lambda>e. fst e = f) ?es)"
    by (simp add: conj_commute)
  finally have "filter (\<lambda>h. HotspotEntry.file h = f) ?hs
      = (if int (length ?G) < N then [] else [hotspot_entry N f (sort_key timestamp ?G)])"
    unfolding ent using assms(3) by auto
  with eq show ?thesis by blast
qed

lemma hotspots_files:
  assumes "loadEvolutionData fs = Inr d" and "r \<noteq> []" and "0 < N"
    and "\<forall>s \<in> set d. repo s = r \<longrightarrow> \<not> inherited_file s"
    and "evolution_hotspots (Some r) (Some N) fs = Inr hs" and "h \<in> set hs"
  shows "HotspotEntry.file h \<noteq> []
     \<and> (\<exists>s \<in> set d. repo s = r \<and> EvolutionSnapshot.file s = Some (HotspotEntry.file h))"
proof -
  from grouped [OF assms(4)] obtain bf where
    g: "group_all [] (filter (\<lambda>snap. repo snap = r) d) = Inr bf"
    and keys: "\<forall>k \<in> set (map fst bf). \<exists>s \<in> set d. repo s = r \<and> in_file k s"
    by blast
  from assms(5) hotspots_eq [OF assms(1-3) g] assms(6)
  obtain e where e: "e \<in> set (object_entries bf)" and h: "HotspotEntry.file h = fst e"
    by (auto simp add: file_hotspot_entry)
  then have "fst e \<in> set (map fst bf)" by (simp add: set_object_entries)
  with keys obtain s where "s \<in> set d" "repo s = r" "in_file (fst e) s" by blast
  then show ?thesis using h by (auto simp add: in_file_def)
qed

lemma complexityTrend_entry:
  assumes "0 < N" and "N \<le> int (length g)"
  shows "complexityTrend (hotspot_entry N f g)
       = complexityScore (metrics (last g)) - complexityScore (metrics (g ! (length g - nat N)))"
    and "latest (hotspot_entry N f g) = metrics (last g)"
proof -
  from assms have ne: "g \<noteq> []" by auto
  have a: "nat (int (length g) - 1) = length g - 1" by simp
  have b: "nat (int (length g) - N) = length g - nat N" using assms by simp
  show "complexityTrend (hotspot_entry N f g)
       = complexityScore (metrics (last g)) - complexityScore (metrics (g ! (length g - nat N)))"
    using ne by (simp add: hotspot_entry_def Let_def a b last_conv_nth)
  show "latest (hotspot_entry N f g) = metrics (last g)"
    using ne by (simp add: hotspot_entry_def Let_def a last_conv_nth)
qed

text \<open>
  The handler on a store in which no snapshot of the repository has a file that is an
  inherited key, for a positive window size \<open>N\<close> given in the request. The handler
  succeeds. For every file, its group (the snapshots of the repository with that file) is
  sorted ascending by timestamp; a file whose group has fewer than \<open>N\<close> snapshots has no
  entry in the result; any other file has exactly one entry, and its \<open>complexityTrend\<close>
  is the complexity score of the last snapshot of the sorted group minus that of the
  snapshot at position \<open>length - N\<close>. Five snapshots of one file with the complexity
  scores 10, 12, 14, 18, 25 at increasing timestamps and the window size 5 give a single
  entry with \<open>complexityTrend = 15\<close>.
\<close>

lemma hotspots_trend_own_keys:
  assumes "loadEvolutionData fs = Inr d" and "r \<noteq> []" and "0 < N"
    and "\<forall>s \<in> set d. repo s = r \<longrightarrow> \<not> inherited_file s"
  shows "\<exists>hs. evolution_hotspots (Some r) (Some N) fs = Inr hs
     \<and> (f \<noteq> [] \<longrightarrow>
          sorted (map timestamp (sort_key timestamp
            (filter (\<lambda>s. repo s = r \<and> EvolutionSnapshot.file s = Some f) d)))
          \<and> (int (length (filter (\<lambda>s. repo s = r \<and> EvolutionSnapshot.file s = Some f) d))
                < N
              \<longrightarrow> filter (\<lambda>h. HotspotEntry.file h = f) hs = [])
          \<and> (N
                \<le> int (length (filter (\<lambda>s. repo s = r \<and> EvolutionSnapshot.file s = Some f) d))
              \<longrightarrow> (\<exists>h. filter (\<lambda>h. HotspotEntry.file h = f) hs = [h]
                    \<and> complexityTrend h
                        = complexityScore (metrics (last (sort_key timestamp
                            (filter (\<lambda>s. repo s = r \<and> EvolutionSnapshot.file s = Some f) d))))
                          - complexityScore (metrics (sort_key timestamp
                              (filter (\<lambda>s. repo s = r \<and> EvolutionSnapshot.file s = Some f) d)
                            ! (length (filter (\<lambda>s. repo s = r \<and> EvolutionSnapshot.file s = Some f) d)
                               - nat N))))))
     \<and> (f \<noteq> [] \<and> N = 5
          \<and> list_all (\<lambda>s. repo s = r \<and> EvolutionSnapshot.file s = Some f) d
          \<and> sorted_wrt (<) (map timestamp d)
          \<and> map (\<lambda>s. complexityScore (metrics s)) d = [10, 12, 14, 18, 25]
        \<longrightarrow> (\<exists>h. hs = [h] \<and> HotspotEntry.file h = f \<and> complexityTrend h = 15))"
proof -
  let ?G = "filter (\<lambda>s. repo s = r \<and> EvolutionSnapshot.file s = Some f) d"
  let ?S = "sort_key timestamp ?G"
  obtain hs where eq: "evolution_hotspots (Some r) (Some N) fs = Inr hs"
    using hotspots_of_file [OF assms(1-3) _ assms(4), of "[0]"] by auto
  have per_file: "filter (\<lambda>h. HotspotEntry.file h = f) hs
        = (if int (length ?G) < N then [] else [hotspot_entry N f ?S])" if "f \<noteq> []"
    using hotspots_of_file [OF assms(1-3) that assms(4)] eq by simp
  have srt: "sorted (map timestamp ?S)" by simp
  have short: "filter (\<lambda>h. HotspotEntry.file h = f) hs = []"
    if "f \<noteq> []" "int (length ?G) < N"
    using per_file that by simp
  have long: "\<exists>h. filter (\<lambda>h. HotspotEntry.file h = f) hs = [h]
        \<and> complexityTrend h = complexityScore (metrics (last ?S))
             - complexityScore (metrics (?S ! (length ?G - nat N)))"
    if "f \<noteq> []" "N \<le> int (length ?G)"
  proof -
    have "filter (\<lambda>h. HotspotEntry.file h = f) hs = [hotspot_entry N f ?S]"
      using per_file that by simp
    moreover have "complexityTrend (hotspot_entry N f ?S)
        = complexityScore (metrics (last ?S)) - complexityScore (metrics (?S ! (length ?S - nat N)))"
      using assms(3) that(2) by (intro complexityTrend_entry) simp_all
    ultimately show ?thesis by simp
  qed
  have example: "\<exists>h. hs = [h] \<and> HotspotEntry.file h = f \<and> complexityTrend h = 15"
    if f: "f \<noteq> []" and N: "N = 5"
      and all: "list_all (\<lambda>s. repo s = r \<and> EvolutionSnapshot.file s = Some f) d"
      and inc: "sorted_wrt (<) (map timestamp d)"
      and cs: "map (\<lambda>s. complexityScore (metrics s)) d = [10, 12, 14, 18, 25]"
  proof -
    from all have G: "?G = d" by (simp add: list_all_iff)
    from inc have "sorted (map timestamp d)" by (rule strict_sorted_imp_sorted)
    then have Sd: "sort_key timestamp d = d" by (rule sort_key_id_if_sorted)
    from cs have "length (map (\<lambda>s. complexityScore (metrics s)) d) = 5" by simp
    then have len: "length d = 5" by simp
    then have ne: "d \<noteq> []" by auto
    have "N \<le> int (length ?G)" using N len by (simp add: G)
    from long [OF f this] obtain h where h: "filter (\<lambda>h. HotspotEntry.file h = f) hs = [h]"
      and ct0: "complexityTrend h = complexityScore (metrics (last ?S))
             - complexityScore (metrics (?S ! (length ?G - nat N)))"
      by blast
    have ct: "complexityTrend h = complexityScore (metrics (last d))
             - complexityScore (metrics (d ! 0))"
      using ct0 by (simp add: G Sd N len)
    have "complexityScore (metrics (last d)) = last (map (\<lambda>s. complexityScore (metrics s)) d)"
      using ne by (simp add: last_map)
    then have l: "complexityScore (metrics (last d)) = 25" unfolding cs by simp
    have "complexityScore (metrics (d ! 0)) = map (\<lambda>s. complexityScore (metrics s)) d ! 0"
      using len by simp
    then have z: "complexityScore (metrics (d ! 0)) = 10" unfolding cs by simp
    have "HotspotEntry.file x = f" if "x \<in> set hs" for x
      using hotspots_files [OF assms eq that] all by (auto simp add: list_all_iff)
    then have "filter (\<lambda>h. HotspotEntry.file h = f) hs = hs" by simp
    with h have "hs = [h]" by simp
    moreover from this have "HotspotEntry.file h = f"
      using \<open>\<And>x. x \<in> set hs \<Longrightarrow> HotspotEntry.file x = f\<close> by simp
    ultimately show ?thesis using ct l z by simp
  qed
  show ?thesis
  proof (rule exI [of _ hs], intro conjI impI)
    show "evolution_hotspots (Some r) (Some N) fs = Inr hs" by (rule eq)
    show "sorted (map timestamp ?S)" by (rule srt)
    show "filter (\<lambda>h. HotspotEntry.file h = f) hs = []"
      if "f \<noteq> []" "int (length ?G) < N"
      using that by (rule short)
    show "\<exists>h. filter (\<lambda>h. HotspotEntry.file h = f) hs = [h]
        \<and> complexityTrend h = complexityScore (metrics (last ?S))
             - complexityScore (metrics (?S ! (length ?G - nat N)))"
      if "f \<noteq> []" "N \<le> int (length ?G)"
      using that by (rule long)
    show "\<exists>h. hs = [h] \<and> HotspotEntry.file h = f \<and> complexityTrend h = 15"
      if "f \<noteq> [] \<and> N = 5
          \<and> list_all (\<lambda>s. repo s = r \<and> EvolutionSnapshot.file s = Some f) d
          \<and> sorted_wrt (<) (map timestamp d)
          \<and> map (\<lambda>s. complexityScore (metrics s)) d = [10, 12, 14, 18, 25]"
    proof -
      from that have 1: "f \<noteq> []" and 2: "N = 5"
        and 3: "list_all (\<lambda>s. repo s = r \<and> EvolutionSnapshot.file s = Some f) d"
        and 4: "sorted_wrt (<) (map timestamp d)"
        and 5: "map (\<lambda>s. complexityScore (metrics s)) d = [10, 12, 14, 18, 25]"
        by simp_all
      from 1 2 3 4 5 show ?thesis by (rule example)
    qed
  qed
qed

text \<open>
  A snapshot of the repository whose file is an inherited key makes the handler fail,
  whatever else the store holds and whatever the window is.
\<close>

lemma hotspots_inherited:
  assumes "loadEvolutionData fs = Inr d" and "r \<noteq> []"
    and "\<exists>s \<in> set d. repo s = r \<and> inherited_file s"
  shows "evolution_hotspots (Some r) w fs = Inl TypeError"
proof -
  from assms(3) have "\<exists>s \<in> set (filter (\<lambda>snap. repo snap = r) d). inherited_file s" by auto
  then have "group_all [] (filter (\<lambda>snap. repo snap = r) d) = Inl TypeError"
    by (rule group_all_inherited) simp
  with assms(1,2) show ?thesis by (simp add: evolution_hotspots_def)
qed

text \<open>
  Claim C2, on the code. For five snapshots of \<^verbatim>\<open>src/a.ts\<close> with the complexity scores
  10, 12, 14, 18, 25 at increasing timestamps and the window size 5, the handler returns
  one entry with \<open>complexityTrend = 15\<close>, as the claim says. With one more snapshot of
  the same repository, for a file named \<^verbatim>\<open>constructor\<close>, the claim asks for the same
  entry (the new file has one snapshot and is left out). The handler instead finds the
  inherited property in the grouping object, creates no group, and fails on \<^verbatim>\<open>push\<close>
  with a TypeError: the request has no result for any file of the repository.
\<close>

theorem hotspots_inherited_key:
  "evolution_hotspots (Some (js ''acme/app'')) (Some 5)
     (example_store [example_snapshot 1 10, example_snapshot 2 12, example_snapshot 3 14,
        example_snapshot 4 18, example_snapshot 5 25])
   = Inr [\<lparr> file = js ''src/a.ts'', maintainabilityTrend = 0, complexityTrend = 15,
             securityTrend = 0, latest = example_metrics 25 \<rparr>]
   \<and> evolution_hotspots (Some (js ''acme/app'')) (Some 5)
     (example_store [example_snapshot 1 10, example_snapshot 2 12, example_snapshot 3 14,
        example_snapshot 4 18, example_snapshot 5 25, example_snapshot_of ''constructor'' 6 1])
   = Inl TypeError"
  by (simp add: evolution_hotspots_def loadEvolutionData_def js_def example_store_def
      example_snapshot_def example_snapshot_of_def example_metrics_def group_push_def
      Object_prototype_keys_def Let_def window_size_def
      object_entries_def is_array_index_def is_digit_def digits_val_def hotspot_of_def
      hotspot_entry_def or_zero_def)

text \<open>
  The handler evaluated on a store with four files, received out of timestamp order, and
  the window size 2. The file \<^verbatim>\<open>c\<close> has one snapshot and no entry. The key \<^verbatim>\<open>7\<close>
  is an array index and comes first among the entries; the result is then ordered by
  descending \<open>complexityTrend\<close>.
\<close>

lemma hotspots_example:
  "evolution_hotspots (Some (js ''acme/app'')) (Some 2)
     (example_store [example_snapshot_of ''b'' 5 10, example_snapshot_of ''7'' 2 12,
        example_snapshot_of ''a'' 3 14, example_snapshot_of ''b'' 4 18,
        example_snapshot_of ''a'' 1 25, example_snapshot_of ''7'' 1 1,
        example_snapshot_of ''c'' 1 1])
   = Inr [\<lparr> file = js ''7'', maintainabilityTrend = 0, complexityTrend = 11, securityTrend = 0,
             latest = example_metrics 12 \<rparr>,
          \<lparr> file = js ''b'', maintainabilityTrend = 0, complexityTrend = - 8, securityTrend = 0,
             latest = example_metrics 10 \<rparr>,
          \<lparr> file = js ''a'', maintainabilityTrend = 0, complexityTrend = - 11, securityTrend = 0,
             latest = example_metrics 14 \<rparr>]"
  by (simp add: evolution_hotspots_def loadEvolutionData_def js_def example_store_def
      example_snapshot_of_def example_metrics_def group_push_def Object_prototype_keys_def
      Let_def window_size_def
      object_entries_def is_array_index_def is_digit_def digits_val_def hotspot_of_def
      hotspot_entry_def or_zero_def)

end
